theory Spec2Isabelle
  imports Main "HOL-Library.Sublist"
begin

section \<open>Scope\<close>

text \<open>
  A shallow embedding of \<open>fork_shim.c\<close>: the interposed \<open>fork\<close>, which sets
  \<open>oom_score_adj\<close> of every new process to 1000 or, for a whitelisted one, to -1000,
  and \<open>check_wl_config\<close>, which matches one name against \<open>/etc/oom_whitelist\<close>.
  The files are a parameter of the model, as are the value \<open>org_fork()\<close> returned and
  what the uninitialised array \<open>last\<close> of \<open>check_wl_config\<close> happens to hold.
  Both functions open a log file and use the stream without a check, so the model holds
  the two streams; what is printed to them (a null \<open>proc_name\<close> is printed as
  \<open>(null)\<close> by glibc) is never read back and is not kept. The counter \<open>catch_bad_things\<close> is an unbounded
  integer; it only grows by one per line read and is only compared with 0.
\<close>

section \<open>C strings and the libc calls of fork\_shim.c\<close>

text \<open>
  A C string is modelled by the bytes before its terminating NUL; a buffer that was
  filled by a read is the list of bytes read, and \<open>cstr\<close> is the C string that
  \<open>strlen\<close>, \<open>strstr\<close> and \<open>strcmp\<close> see in it. A \<open>NULL\<close> pointer is \<open>None\<close>.
  Calls whose behaviour the C standard leaves undefined (a null dereference, \<open>free\<close> of a
  pointer that \<open>malloc\<close> never returned, a stream function on a null stream) end the
  run in \<open>Undefined\<close>.
\<close>

abbreviation NUL :: char where "NUL \<equiv> CHR 0x00"

abbreviation NL :: char where "NL \<equiv> CHR 0x0A"

datatype 'a result = Ret 'a | Undefined

definition cstr :: "string \<Rightarrow> string" where
  "cstr buf = takeWhile (\<lambda>c. c \<noteq> NUL) buf"

text \<open>\<open>strstr(hay, needle)\<close>: the first occurrence of \<open>needle\<close> in \<open>hay\<close>, as the
  suffix of \<open>hay\<close> that starts there, or \<open>None\<close> (it returns \<open>NULL\<close>) where
  \<open>needle\<close> does not occur.\<close>

fun strstr :: "string \<Rightarrow> string \<Rightarrow> string option" where
  "strstr [] needle = (if needle = [] then Some [] else None)"
| "strstr (c # hay) needle =
     (if prefix needle (c # hay) then Some (c # hay) else strstr hay needle)"

text \<open>\<open>strrchr(s, '/')\<close> followed by the \<open>memmove\<close> over the slash it found: what
  is left at \<open>afterSlash\<close> is the part of \<open>s\<close> behind its last slash.\<close>

definition after_last_slash :: "string \<Rightarrow> string" where
  "after_last_slash s = rev (takeWhile (\<lambda>c. c \<noteq> CHR ''/'') (rev s))"

text \<open>\<open>strtok\<close> with the delimiter \<open>" "\<close>, on the text its saved pointer still has
  to scan: the next token and the new saved text, or \<open>None\<close> when only delimiters
  are left.\<close>

definition strtok :: "string \<Rightarrow> (string \<times> string) option" where
  "strtok s =
     (let s1 = dropWhile (\<lambda>c. c = CHR '' '') s in
      if s1 = [] then None
      else Some (takeWhile (\<lambda>c. c \<noteq> CHR '' '') s1,
                 tl (dropWhile (\<lambda>c. c \<noteq> CHR '' '') s1)))"

text \<open>\<open>fgets(buf, size, f)\<close> on the unread rest of a stream: at most \<open>size - 1\<close>
  bytes, ending behind the first newline; \<open>None\<close> at end of file.\<close>

definition fgets :: "nat \<Rightarrow> string \<Rightarrow> (string \<times> string) option" where
  "fgets sz s =
     (if s = [] then None
      else let k = length (takeWhile (\<lambda>c. c \<noteq> NL) s);
               n = (if k < sz - 1 then Suc k else sz - 1)
           in Some (take n s, drop n s))"

text \<open>\<open>getdelim(&cmdArg, &size, 0, f)\<close>: the bytes up to the next NUL, which is
  consumed; \<open>None\<close> (the call returns -1) at end of file.\<close>

definition getdelim :: "string \<Rightarrow> (string \<times> string) option" where
  "getdelim s =
     (if s = [] then None
      else Some (takeWhile (\<lambda>c. c \<noteq> NUL) s, tl (dropWhile (\<lambda>c. c \<noteq> NUL) s)))"

text \<open>\<open>snprintf(buf, size, ...)\<close> keeps the first \<open>size - 1\<close> bytes of the formatted
  text.\<close>

definition snprintf :: "nat \<Rightarrow> string \<Rightarrow> string" where
  "snprintf sz s = take (sz - 1) s"

definition digit_char :: "nat \<Rightarrow> char" where
  "digit_char d = ''0123456789'' ! d"

fun dec_nat :: "nat \<Rightarrow> string" where
  "dec_nat n = (if n < 10 then [digit_char n] else dec_nat (n div 10) @ [digit_char (n mod 10)])"

text \<open>The conversion \<open>%d\<close> of a \<open>pid_t\<close>.\<close>

definition dec :: "int \<Rightarrow> string" where
  "dec i = (if i < 0 then CHR ''-'' # dec_nat (nat (- i)) else dec_nat (nat i))"

section \<open>The files the shim reads and writes\<close>

text \<open>
  The file system maps a path to a node, or to \<open>None\<close> where nothing exists.
  \<open>access(path, F_OK)\<close> asks whether the node exists; \<open>fopen\<close> can still return
  \<open>NULL\<close> on an existing node (permissions, or a process that went away between
  the two calls): such a node has \<open>openable = False\<close>.
\<close>

record node =
  openable :: bool
  bytes :: string

type_synonym fs = "string \<Rightarrow> node option"

definition access :: "fs \<Rightarrow> string \<Rightarrow> bool" where
  "access fs path = (fs path \<noteq> None)"

definition fopen :: "fs \<Rightarrow> string \<Rightarrow> node option" where
  "fopen fs path =
     (case fs path of None \<Rightarrow> None
      | Some f \<Rightarrow> if openable f then Some f else None)"

text \<open>
  The two log files are opened with the mode \<open>"a"\<close>, which creates a missing file, and
  no other call looks at their paths: for them a node that is openable stands for a log
  that \<open>fopen\<close> opens or creates, and no node or one that is not openable for a log
  for which \<open>fopen\<close> returns \<open>NULL\<close>.
\<close>

abbreviation forks_log :: string where "forks_log \<equiv> ''/tmp/shim_forks.log''"

abbreviation wl_log :: string where "wl_log \<equiv> ''/tmp/shim_forks_wl.log''"

text \<open>A call of \<open>fprintf\<close> or \<open>fclose\<close> on the unchecked stream \<open>f\<close>, and \<open>r\<close> for what
  the code does behind it.\<close>

definition on_stream :: "node option \<Rightarrow> 'a result \<Rightarrow> 'a result" where
  "on_stream f r = (case f of None \<Rightarrow> Undefined | Some s \<Rightarrow> r)"

section \<open>check\_wl\_config\<close>

text \<open>The successive results of \<open>fgets(wl_proc_name, sizeof(wl_proc_name)-1, whitelist_file)\<close>
  until it returns \<open>NULL\<close>: the buffer has 129 bytes, so each call reads at most 127.\<close>

function lines_read :: "string \<Rightarrow> string list" where
  "lines_read file =
     (case fgets 128 file of None \<Rightarrow> []
      | Some (buf, rest) \<Rightarrow> buf # lines_read rest)"
  by pat_completeness auto
termination
  by (relation "measure length") (auto simp: fgets_def Let_def split: if_splits)

text \<open>
  The test of line 155 that the last byte of the string in \<open>last\<close> is not a newline
  (\<open>last[strlen(last)-1]\<close>). The array \<open>last\<close> is not
  initialised: until line 157 or 177 has written it (\<open>None\<close>) the test reads whatever
  the stack holds, and \<open>stale\<close> is the value the test has then. The same holds for an
  empty \<open>last\<close>, where the index is out of the array.
\<close>

definition last_not_newline :: "bool \<Rightarrow> string option \<Rightarrow> bool" where
  "last_not_newline stale lastb =
     (case lastb of None \<Rightarrow> stale
      | Some l \<Rightarrow> if l = [] then stale else last l \<noteq> NL)"

definition first_is :: "char \<Rightarrow> string \<Rightarrow> bool" where
  "first_is c s = (case s of [] \<Rightarrow> False | x # _ \<Rightarrow> x = c)"

text \<open>
  The body of the \<open>while\<close> loop of lines 140 to 181, on the lines still to be read.
  \<open>proc_name\<close> is the argument of \<open>check_wl_config\<close> (\<open>None\<close> for \<open>NULL\<close>),
  \<open>cbt\<close> is \<open>catch_bad_things\<close> and \<open>lastb\<close> the array \<open>last\<close>. The loop is only
  reached behind the \<open>fprintf\<close> of line 139, with a log stream that is not \<open>NULL\<close>, so
  the \<open>fprintf\<close> and \<open>fclose\<close> of lines 164, 165, 172, 173 and 182 on that stream do
  not change what is returned.
\<close>

fun wl_loop :: "bool \<Rightarrow> string option \<Rightarrow> string list \<Rightarrow> int \<Rightarrow> string option \<Rightarrow> int result" where
  "wl_loop stale proc_name [] cbt lastb = Ret 0"
| "wl_loop stale proc_name (buf # rest) cbt lastb =
     (if strstr (cstr buf) [NL] = None then wl_loop stale proc_name rest (cbt + 1) lastb
      else
        let real = snprintf 128 (cstr buf);
            wl_proc_name = butlast (cstr buf)
        in
          if length wl_proc_name = 0 then wl_loop stale proc_name rest cbt lastb
          else if first_is (CHR ''#'') wl_proc_name then wl_loop stale proc_name rest cbt lastb
          else if last_not_newline stale lastb \<and> cbt > 0
            then wl_loop stale proc_name rest cbt (Some (snprintf 128 real))
          else if first_is (CHR ''!'') wl_proc_name then
            (case proc_name of
               None \<Rightarrow> Undefined
             | Some p \<Rightarrow>
                 if tl wl_proc_name = p then Ret 1
                 else wl_loop stale proc_name rest (cbt + 1) (Some (snprintf 128 real)))
          else
            (case proc_name of
               None \<Rightarrow> Undefined
             | Some p \<Rightarrow>
                 if strstr wl_proc_name p \<noteq> None then Ret 1
                 else wl_loop stale proc_name rest (cbt + 1) (Some (snprintf 128 real))))"

abbreviation wl_path :: string where "wl_path \<equiv> ''/etc/oom_whitelist''"

text \<open>The two values \<open>check_wl_config\<close> returns: 1 for a whitelisted (exempt) name,
  0 for any other.\<close>

abbreviation Exempt :: "int result" where "Exempt \<equiv> Ret 1"

abbreviation Standard :: "int result" where "Standard \<equiv> Ret 0"

text \<open>\<open>check_wl_config\<close>, lines 121 to 184: 1 when \<open>proc_name\<close> is whitelisted, 0
  otherwise. \<open>stale\<close> is what its uninitialised array \<open>last\<close> makes of the test of
  line 155 in this call. \<open>logFile\<close> is the unchecked result of line 122; it is closed on
  lines 131 and 136 and printed to on line 139.\<close>

definition check_wl_config :: "bool \<Rightarrow> fs \<Rightarrow> string option \<Rightarrow> int result" where
  "check_wl_config stale fs proc_name =
     (let logFile = fopen fs wl_log in
      if \<not> access fs wl_path then on_stream logFile (Ret 0)
      else case fopen fs wl_path of
             None \<Rightarrow> on_stream logFile (Ret 0)
           | Some whitelist_file \<Rightarrow>
               on_stream logFile
                 (wl_loop stale proc_name (lines_read (bytes whitelist_file)) 0 None))"

section \<open>fork\<close>

text \<open>
  What one call of the interposed \<open>fork\<close> does: the arguments of its calls of
  \<open>check_wl_config\<close> in call order, the score it wrote with the path it wrote it to,
  and what it returned.
\<close>

record effect =
  checked :: "string option list"
  written :: "(string \<times> int) option"
  returned :: "int result"

datatype loop_exit = Continue "string option list" | Stop effect

text \<open>The \<open>fprintf\<close> of the score to \<open>oomFile\<close> and the \<open>fclose\<close> that follows it,
  where \<open>oomFile\<close> is the unchecked result of \<open>fopen(fileName, "w")\<close>; \<open>r\<close> is what
  the code behind the write goes on to return.\<close>

definition write_score ::
  "string \<Rightarrow> node option \<Rightarrow> int \<Rightarrow> string option list \<Rightarrow> int result \<Rightarrow> effect" where
  "write_score fileName oomFile v tr r =
     (case oomFile of
        None \<Rightarrow> \<lparr>checked = tr, written = None, returned = Undefined\<rparr>
      | Some f \<Rightarrow> \<lparr>checked = tr, written = Some (fileName, v), returned = r\<rparr>)"

text \<open>
  The inner loop of lines 88 to 98, entered with a first token that is not \<open>NULL\<close>;
  \<open>saved\<close> is the text \<open>strtok\<close> has not scanned yet. Each round first takes the
  next token and then passes it, \<open>NULL\<close> included, to \<open>check_wl_config\<close>. On a
  match line 94 frees \<open>token\<close>, which points into the block \<open>cmdArg\<close> that line 93
  has freed. \<open>garbage k\<close> is the \<open>stale\<close> of the call of \<open>check_wl_config\<close> with
  number \<open>k\<close>.
\<close>

function token_loop ::
  "(nat \<Rightarrow> bool) \<Rightarrow> fs \<Rightarrow> string \<Rightarrow> node option \<Rightarrow> int \<Rightarrow> string \<Rightarrow> string option list \<Rightarrow> loop_exit" where
  "token_loop garbage fs fileName oomFile pid saved tr =
     (case strtok saved of
        None \<Rightarrow>
          (case check_wl_config (garbage (length tr)) fs None of
             Undefined \<Rightarrow> Stop \<lparr>checked = tr @ [None], written = None, returned = Undefined\<rparr>
           | Ret r \<Rightarrow>
               if r = 1 then Stop (write_score fileName oomFile (- 1000) (tr @ [None]) (Ret pid))
               else Continue (tr @ [None]))
      | Some (token, saved') \<Rightarrow>
          (case check_wl_config (garbage (length tr)) fs (Some token) of
             Undefined \<Rightarrow> Stop \<lparr>checked = tr @ [Some token], written = None, returned = Undefined\<rparr>
           | Ret r \<Rightarrow>
               if r = 1 then Stop (write_score fileName oomFile (- 1000) (tr @ [Some token]) Undefined)
               else token_loop garbage fs fileName oomFile pid saved' (tr @ [Some token])))"
  by pat_completeness auto
termination
proof (relation "measure (\<lambda>(garbage, fs, fileName, oomFile, pid, saved, tr). length saved)")
  show "wf (measure (\<lambda>(garbage, fs, fileName, oomFile, pid, saved, tr). length saved))"
    by simp
next
  fix garbage :: "nat \<Rightarrow> bool" and fs :: fs and fileName :: string and oomFile :: "node option"
    and pid :: int and saved :: string and tr :: "string option list"
    and x2 :: "string \<times> string" and token saved' :: string and x1 :: int
  assume tok: "strtok saved = Some x2" "(token, saved') = x2"
  let ?s1 = "dropWhile (\<lambda>c. c = CHR '' '') saved"
  from tok have ne: "?s1 \<noteq> []" and sv: "saved' = tl (dropWhile (\<lambda>c. c \<noteq> CHR '' '') ?s1)"
    by (auto simp: strtok_def Let_def split: if_splits)
  have "length saved' \<le> length ?s1 - 1"
    unfolding sv by (simp add: length_dropWhile_le diff_le_mono)
  moreover have "length ?s1 \<le> length saved"
    by (rule length_dropWhile_le)
  moreover have "0 < length ?s1"
    using ne by simp
  ultimately have "length saved' < length saved"
    by linarith
  then show "((garbage, fs, fileName, oomFile, pid, saved', tr @ [Some token]),
              (garbage, fs, fileName, oomFile, pid, saved, tr))
             \<in> measure (\<lambda>(garbage, fs, fileName, oomFile, pid, saved, tr). length saved)"
    by simp
qed

text \<open>
  The \<open>while\<close> loop of lines 76 to 109 over the records of \<open>/proc/PID/cmdline\<close>,
  with the lines 110 to 113 that follow it; \<open>cmdFile\<close> is the unread rest of the
  stream.
\<close>

function arg_loop ::
  "(nat \<Rightarrow> bool) \<Rightarrow> fs \<Rightarrow> string \<Rightarrow> node option \<Rightarrow> int \<Rightarrow> string \<Rightarrow> string option list \<Rightarrow> effect" where
  "arg_loop garbage fs fileName oomFile pid cmdFile tr =
     (case getdelim cmdFile of
        None \<Rightarrow> write_score fileName oomFile 1000 tr (Ret pid)
      | Some (cmdArg, rest) \<Rightarrow>
          if first_is (CHR ''/'') cmdArg then
            (case strtok (after_last_slash cmdArg) of
               None \<Rightarrow> arg_loop garbage fs fileName oomFile pid rest tr
             | Some (token, saved) \<Rightarrow>
                 (case token_loop garbage fs fileName oomFile pid saved tr of
                    Stop e \<Rightarrow> e
                  | Continue tr' \<Rightarrow> arg_loop garbage fs fileName oomFile pid rest tr'))
          else
            (case check_wl_config (garbage (length tr)) fs (Some cmdArg) of
               Undefined \<Rightarrow> \<lparr>checked = tr @ [Some cmdArg], written = None, returned = Undefined\<rparr>
             | Ret r \<Rightarrow>
                 if r = 1 then write_score fileName oomFile (- 1000) (tr @ [Some cmdArg]) (Ret pid)
                 else arg_loop garbage fs fileName oomFile pid rest (tr @ [Some cmdArg])))"
  by pat_completeness auto
termination
proof -
  have shrink: "length rest < length cmdFile" if "getdelim cmdFile = Some (cmdArg, rest)"
    for cmdFile cmdArg rest
  proof -
    from that have ne: "cmdFile \<noteq> []" and r: "rest = tl (dropWhile (\<lambda>c. c \<noteq> NUL) cmdFile)"
      by (auto simp: getdelim_def split: if_splits)
    have "length rest \<le> length cmdFile - 1"
      unfolding r by (simp add: length_dropWhile_le diff_le_mono)
    with ne show ?thesis
      by (cases cmdFile) auto
  qed
  show ?thesis
    by (relation "measure (\<lambda>(garbage, fs, fileName, oomFile, pid, cmdFile, tr). length cmdFile)")
       (auto dest: shrink)
qed

text \<open>
  The interposed \<open>fork\<close>, lines 47 to 119; \<open>pid\<close> is what the wrapped primitive
  \<open>org_fork()\<close> returned. \<open>logFile\<close> is the unchecked result of line 48, which the
  parent side prints to and closes on lines 57 and 58 and the child side does not use.
\<close>

definition oom_path :: "int \<Rightarrow> string" where
  "oom_path pid = ''/proc/'' @ dec pid @ ''/oom_score_adj''"

definition cmdline_path :: "int \<Rightarrow> string" where
  "cmdline_path pid = ''/proc/'' @ dec pid @ ''/cmdline''"

text \<open>Lines 62 and 63: the two formats printed into \<open>char fileName[25+1]\<close> and
  \<open>char cmdFileName[19+1]\<close>.\<close>

definition fileName_of :: "int \<Rightarrow> string" where
  "fileName_of pid = snprintf 26 (oom_path pid)"

definition cmdFileName_of :: "int \<Rightarrow> string" where
  "cmdFileName_of pid = snprintf 20 (cmdline_path pid)"

definition fork :: "(nat \<Rightarrow> bool) \<Rightarrow> fs \<Rightarrow> int \<Rightarrow> effect" where
  "fork garbage fs pid =
     (let logFile = fopen fs forks_log in
      if pid \<noteq> 0 then
        (case logFile of
           None \<Rightarrow> \<lparr>checked = [], written = None, returned = Undefined\<rparr>
         | Some l \<Rightarrow>
            (let fileName = fileName_of pid; cmdFileName = cmdFileName_of pid in
             if access fs fileName then
               (let oomFile = fopen fs fileName in
                if access fs cmdFileName then
                  (case fopen fs cmdFileName of
                     None \<Rightarrow> \<lparr>checked = [], written = None, returned = Undefined\<rparr>
                   | Some cmdFile \<Rightarrow>
                       arg_loop garbage fs fileName oomFile pid (bytes cmdFile) [])
                else \<lparr>checked = [], written = None, returned = Ret pid\<rparr>)
             else \<lparr>checked = [], written = None, returned = Ret pid\<rparr>))
      else \<lparr>checked = [], written = None, returned = Ret pid\<rparr>)"

section \<open>Notions the properties are stated with\<close>

text \<open>A line that \<open>fgets\<close> delivered with its newline (the test of line 142 finds
  one), and the comparison of lines 161 to 176 of such a line, newline stripped, with
  the candidate.\<close>

definition terminated :: "string \<Rightarrow> bool" where
  "terminated buf = (strstr (cstr buf) [NL] \<noteq> None)"

definition entry_matches :: "string \<Rightarrow> string option \<Rightarrow> bool" where
  "entry_matches wl proc_name =
     (case proc_name of
        None \<Rightarrow> False
      | Some p \<Rightarrow> if first_is (CHR ''!'') wl then tl wl = p else strstr wl p \<noteq> None)"

text \<open>Example file systems, all with log files that open: one that holds the
  whitelist, one that holds the two \<open>/proc\<close> files of a process, with or without a
  whitelist, and one that holds nothing else. \<open>locked\<close> is a node for which \<open>fopen\<close>
  returns \<open>NULL\<close>.\<close>

definition plain :: "string \<Rightarrow> node" where
  "plain s = \<lparr>openable = True, bytes = s\<rparr>"

definition locked :: node where
  "locked = \<lparr>openable = False, bytes = []\<rparr>"

definition logs_fs :: fs where
  "logs_fs = (\<lambda>path. if path = wl_log then Some (plain [])
                     else if path = forks_log then Some (plain [])
                     else None)"

definition wl_fs :: "string \<Rightarrow> fs" where
  "wl_fs content = (\<lambda>path. if path = wl_path then Some (plain content) else logs_fs path)"

definition proc_fs :: "int \<Rightarrow> string \<Rightarrow> node option \<Rightarrow> fs" where
  "proc_fs pid cmdline whitelist =
     (\<lambda>path. if path = oom_path pid then Some (plain [])
             else if path = cmdline_path pid then Some (plain cmdline)
             else if path = wl_path then whitelist
             else logs_fs path)"

text \<open>The exemption list of the concrete scenario: the lines \<open># comment\<close>, the
  empty line, \<open>!sshd\<close> and \<open>bash\<close>.\<close>

definition scenario :: string where
  "scenario = ''# comment'' @ [NL] @ [NL] @ ''!sshd'' @ [NL] @ ''bash'' @ [NL]"

text \<open>A line that fits the buffer of \<open>fgets\<close> with its newline and holds no NUL,
  and a line (newline stripped) that is an entry: neither empty nor a comment.\<close>

definition complete_line :: "string \<Rightarrow> bool" where
  "complete_line buf = (buf \<noteq> [] \<and> last buf = NL \<and> NUL \<notin> set buf \<and> length buf \<le> 127)"

definition is_entry :: "string \<Rightarrow> bool" where
  "is_entry wl = (wl \<noteq> [] \<and> \<not> first_is (CHR ''#'') wl)"

text \<open>A line of 127 bytes before its newline: one byte more than a call of
  \<open>fgets\<close> with the size 128 can deliver together with the newline.\<close>

definition long_line :: string where
  "long_line = replicate 127 (CHR ''x'')"

text \<open>What every path through \<open>fork\<close> keeps: a score is written to \<open>fileName\<close>
  only, and a \<open>return\<close> statement returns \<open>pid\<close>.\<close>

definition sound :: "string \<Rightarrow> int \<Rightarrow> effect \<Rightarrow> bool" where
  "sound fileName pid e =
     ((case written e of None \<Rightarrow> True | Some (path, v) \<Rightarrow> path = fileName) \<and>
      (case returned e of Undefined \<Rightarrow> True | Ret r \<Rightarrow> r = pid))"

section \<open>Properties of check\_wl\_config\<close>

declare lines_read.simps [simp del]

lemma strstr_found_iff: "strstr hay needle \<noteq> None \<longleftrightarrow> (\<exists>ps ss. hay = ps @ needle @ ss)"
proof (induction hay)
  case Nil
  then show ?case by simp
next
  case (Cons c hay)
  show ?case
  proof (cases "prefix needle (c # hay)")
    case True
    then obtain ss where "c # hay = needle @ ss"
      by (auto simp: prefix_def)
    then have "c # hay = [] @ needle @ ss" by simp
    with True show ?thesis by (metis strstr.simps(2) option.distinct(1))
  next
    case False
    have "(\<exists>ps ss. c # hay = ps @ needle @ ss) \<longleftrightarrow> (\<exists>ps ss. hay = ps @ needle @ ss)"
    proof
      assume "\<exists>ps ss. c # hay = ps @ needle @ ss"
      then obtain ps ss where e: "c # hay = ps @ needle @ ss" by blast
      show "\<exists>ps ss. hay = ps @ needle @ ss"
      proof (cases ps)
        case Nil
        with e have "prefix needle (c # hay)" by (simp add: prefix_def)
        with False show ?thesis by simp
      next
        case (Cons a ps')
        with e have "hay = ps' @ needle @ ss" by simp
        then show ?thesis by blast
      qed
    next
      assume "\<exists>ps ss. hay = ps @ needle @ ss"
      then obtain ps ss where "hay = ps @ needle @ ss" by blast
      then have "c # hay = (c # ps) @ needle @ ss" by simp
      then show "\<exists>ps ss. c # hay = ps @ needle @ ss" by blast
    qed
    with False Cons.IH show ?thesis by simp
  qed
qed

lemma strstr_char_None_iff: "strstr hay [c] = None \<longleftrightarrow> c \<notin> set hay"
  by (induction hay) auto

lemma terminated_iff: "terminated buf \<longleftrightarrow> NL \<in> set (cstr buf)"
  by (simp add: terminated_def strstr_char_None_iff)

lemma wl_loop_skips_unterminated:
  "\<not> terminated buf \<Longrightarrow>
   wl_loop stale proc_name (buf # rest) cbt lastb = wl_loop stale proc_name rest (cbt + 1) lastb"
  by (simp add: terminated_def)

lemma wl_loop_Exempt_has_cause:
  "wl_loop stale proc_name bufs cbt lastb = Exempt \<Longrightarrow>
   \<exists>buf \<in> set bufs. terminated buf \<and> entry_matches (butlast (cstr buf)) proc_name"
proof (induction bufs arbitrary: cbt lastb)
  case Nil
  then show ?case by simp
next
  case (Cons buf rest)
  show ?case
  proof (cases "terminated buf \<and> entry_matches (butlast (cstr buf)) proc_name")
    case True
    then show ?thesis by auto
  next
    case False
    then have "\<exists>c l. wl_loop stale proc_name rest c l = Exempt"
      using Cons.prems
      by (auto simp: terminated_def entry_matches_def Let_def split: if_splits option.splits)
    then show ?thesis
      using Cons.IH by auto
  qed
qed

lemma wl_loop_all_unterminated:
  "list_all (\<lambda>buf. \<not> terminated buf) bufs \<Longrightarrow> wl_loop stale proc_name bufs cbt lastb = Standard"
  by (induction bufs arbitrary: cbt) (simp_all add: terminated_def)

lemma on_stream_open: "on_stream (Some f) r = r"
  by (simp add: on_stream_def)

lemma on_stream_null: "on_stream None r = Undefined"
  by (simp add: on_stream_def)

lemma missing_whitelist_with_log:
  "fopen fs wl_log = Some logFile \<Longrightarrow> \<not> access fs wl_path \<or> fopen fs wl_path = None \<Longrightarrow>
   check_wl_config stale fs proc_name = Standard"
  by (auto simp: check_wl_config_def on_stream_def Let_def)

lemma check_wl_config_without_log:
  "fopen fs wl_log = None \<Longrightarrow> check_wl_config stale fs proc_name = Undefined"
  by (simp add: check_wl_config_def on_stream_def Let_def split: option.splits)

text \<open>
  Claim C5, evaluated on the code. The exemption-list file does not exist, or exists and
  cannot be opened. Where the log file of the matcher opens, the matcher returns
  Standard for every candidate. Where \<open>fopen\<close> returns \<open>NULL\<close> for the log file on line
  122, the two early returns pass that null stream to \<open>fclose\<close> on lines 131 and 136,
  and the matcher does not return Standard.
\<close>

theorem missing_whitelist_closes_null_log:
  "check_wl_config stale logs_fs proc_name = Standard \<and>
   check_wl_config stale (\<lambda>path. if path = wl_path then Some locked else logs_fs path) proc_name
     = Standard \<and>
   check_wl_config stale (\<lambda>path. if path = wl_log then Some locked else None) proc_name
     = Undefined \<and>
   check_wl_config stale
     (\<lambda>path. if path = wl_log then Some locked else if path = wl_path then Some locked else None)
     proc_name = Undefined"
  by (simp add: check_wl_config_def on_stream_def Let_def access_def fopen_def logs_fs_def
      locked_def plain_def)

lemma lines_read_scenario:
  "lines_read scenario = [''# comment'' @ [NL], [NL], ''!sshd'' @ [NL], ''bash'' @ [NL]]"
  by (simp add: lines_read.simps scenario_def fgets_def)

lemma check_wl_config_wl_fs:
  "check_wl_config stale (wl_fs content) proc_name =
   wl_loop stale proc_name (lines_read content) 0 None"
  by (simp add: check_wl_config_def wl_fs_def logs_fs_def access_def fopen_def plain_def
      on_stream_def Let_def)

text \<open>
  Claim C4. With the exemption list of the four lines \<open># comment\<close>, the empty line,
  \<open>!sshd\<close> and \<open>bash\<close>, each ended by a newline: the candidate \<open>sshd\<close> is Exempt,
  \<open>sshdx\<close> is Standard, \<open>ba\<close> is Exempt and \<open>zsh\<close> is Standard, whatever the
  uninitialised array holds.
\<close>

theorem scenario_classification:
  "check_wl_config stale (wl_fs scenario) (Some ''sshd'') = Exempt \<and>
   check_wl_config stale (wl_fs scenario) (Some ''sshdx'') = Standard \<and>
   check_wl_config stale (wl_fs scenario) (Some ''ba'') = Exempt \<and>
   check_wl_config stale (wl_fs scenario) (Some ''zsh'') = Standard"
  by (simp add: check_wl_config_wl_fs lines_read_scenario cstr_def snprintf_def first_is_def
      last_not_newline_def)

text \<open>
  Claim C7. A line that was read without its newline never produces an Exempt result:
  whenever the matcher returns Exempt, one of the lines \<open>fgets\<close> delivered with a newline
  is an entry that matches the candidate; and a list of which every line was read
  without a newline never classifies a candidate as Exempt, whatever the visible text
  of its lines is, and classifies every candidate as Standard where the log file of the
  matcher opens.
\<close>

theorem unterminated_line_never_exempts:
  "(check_wl_config stale fs proc_name = Exempt \<longrightarrow>
      (\<exists>f. fopen fs wl_path = Some f \<and>
        (\<exists>buf \<in> set (lines_read (bytes f)).
           terminated buf \<and> entry_matches (butlast (cstr buf)) proc_name))) \<and>
   (fopen fs wl_path = Some f \<and> list_all (\<lambda>buf. \<not> terminated buf) (lines_read (bytes f)) \<longrightarrow>
      check_wl_config stale fs proc_name \<noteq> Exempt) \<and>
   (fopen fs wl_log = Some logFile \<and> fopen fs wl_path = Some f \<and>
    list_all (\<lambda>buf. \<not> terminated buf) (lines_read (bytes f)) \<longrightarrow>
      check_wl_config stale fs proc_name = Standard)"
proof -
  have cause: "\<exists>f. fopen fs wl_path = Some f \<and>
        (\<exists>buf \<in> set (lines_read (bytes f)).
           terminated buf \<and> entry_matches (butlast (cstr buf)) proc_name)"
    if ex: "check_wl_config stale fs proc_name = Exempt"
  proof -
    from ex obtain g where g: "fopen fs wl_path = Some g"
      and loop: "wl_loop stale proc_name (lines_read (bytes g)) 0 None = Exempt"
      by (auto simp: check_wl_config_def on_stream_def Let_def split: if_splits option.splits)
    from wl_loop_Exempt_has_cause [OF loop] g show ?thesis
      by blast
  qed
  have never: "check_wl_config stale fs proc_name \<noteq> Exempt"
    if a: "fopen fs wl_path = Some f \<and> list_all (\<lambda>buf. \<not> terminated buf) (lines_read (bytes f))"
  proof
    assume "check_wl_config stale fs proc_name = Exempt"
    from cause [OF this] a show False
      by (auto simp: list_all_iff)
  qed
  have standard: "check_wl_config stale fs proc_name = Standard"
    if a: "fopen fs wl_log = Some logFile \<and> fopen fs wl_path = Some f \<and>
      list_all (\<lambda>buf. \<not> terminated buf) (lines_read (bytes f))"
    using a by (auto simp: check_wl_config_def on_stream_def Let_def wl_loop_all_unterminated)
  from cause never standard show ?thesis
    by blast
qed

theorem unterminated_line_never_exempts_witness:
  "(\<exists>f. fopen (wl_fs (''sshd'' @ [NL])) wl_path = Some f \<and>
      (\<exists>buf \<in> set (lines_read (bytes f)).
         terminated buf \<and> entry_matches (butlast (cstr buf)) (Some ''sh''))) \<and>
   check_wl_config True (wl_fs ''sshd'') (Some ''sshd'') \<noteq> Exempt \<and>
   check_wl_config True (wl_fs ''sshd'') (Some ''sshd'') = Standard"
proof -
  have exempt: "check_wl_config True (wl_fs (''sshd'' @ [NL])) (Some ''sh'') = Exempt"
    by (simp add: check_wl_config_wl_fs lines_read.simps fgets_def cstr_def snprintf_def
        first_is_def last_not_newline_def)
  have cut: "fopen (wl_fs ''sshd'') wl_path = Some (plain ''sshd'') \<and>
      list_all (\<lambda>buf. \<not> terminated buf) (lines_read (bytes (plain ''sshd'')))"
    by (simp add: wl_fs_def fopen_def plain_def lines_read.simps fgets_def terminated_def cstr_def)
  have log: "fopen (wl_fs ''sshd'') wl_log = Some (plain [])"
    by (simp add: wl_fs_def logs_fs_def fopen_def plain_def)
  from unterminated_line_never_exempts
         [of True "wl_fs (''sshd'' @ [NL])" "Some ''sh''" "plain ''sshd''" "plain []"] exempt
  have first: "\<exists>f. fopen (wl_fs (''sshd'' @ [NL])) wl_path = Some f \<and>
      (\<exists>buf \<in> set (lines_read (bytes f)).
         terminated buf \<and> entry_matches (butlast (cstr buf)) (Some ''sh''))"
    by blast
  from unterminated_line_never_exempts
         [of True "wl_fs ''sshd''" "Some ''sshd''" "plain ''sshd''" "plain []"] cut log
  have second: "check_wl_config True (wl_fs ''sshd'') (Some ''sshd'') \<noteq> Exempt"
    and third: "check_wl_config True (wl_fs ''sshd'') (Some ''sshd'') = Standard"
    by blast+
  from first second third show ?thesis by blast
qed

subsection \<open>Lists of which every line fits the buffer\<close>

lemma wl_loop_ignores_blank_and_comment:
  assumes "terminated buf" and "\<not> is_entry (butlast (cstr buf))"
  shows "wl_loop stale proc_name (buf # rest) cbt lastb = wl_loop stale proc_name rest cbt lastb"
  using assms by (auto simp: terminated_def is_entry_def Let_def)

lemma wl_loop_first_match:
  assumes "terminated buf" and "is_entry (butlast (cstr buf))"
    and "\<not> (last_not_newline stale lastb \<and> 0 < cbt)"
    and "entry_matches (butlast (cstr buf)) (Some p)"
  shows "wl_loop stale (Some p) (buf # rest) cbt lastb = Exempt"
  using assms by (auto simp: terminated_def is_entry_def entry_matches_def Let_def split: if_splits)

lemma complete_line_cstr: "complete_line buf \<Longrightarrow> cstr buf = buf"
  by (auto simp: complete_line_def cstr_def)

lemma complete_line_terminated: "complete_line buf \<Longrightarrow> strstr (cstr buf) [NL] \<noteq> None"
proof -
  assume c: "complete_line buf"
  then have ne: "buf \<noteq> []" and l: "last buf = NL"
    by (simp_all add: complete_line_def)
  from ne have "last buf \<in> set buf"
    by (rule last_in_set)
  then have "NL \<in> set buf"
    unfolding l .
  with c show ?thesis
    by (simp add: complete_line_cstr strstr_char_None_iff)
qed

lemma complete_lines_exempt_iff:
  assumes "list_all complete_line bufs"
    and "cbt = 0 \<or> (\<exists>l. lastb = Some l \<and> l \<noteq> [] \<and> last l = NL)"
  shows "wl_loop stale (Some p) bufs cbt lastb =
    (if list_ex (\<lambda>buf. is_entry (butlast buf) \<and> entry_matches (butlast buf) (Some p)) bufs
     then Exempt else Standard)"
  using assms
proof (induction bufs arbitrary: cbt lastb)
  case Nil
  then show ?case by simp
next
  case (Cons buf rest)
  from Cons.prems have c: "complete_line buf" and r: "list_all complete_line rest"
    by simp_all
  note cs = complete_line_cstr [OF c]
  note tm = complete_line_terminated [OF c]
  from Cons.prems(2) have guard: "\<not> (last_not_newline stale lastb \<and> 0 < cbt)"
    by (auto simp: last_not_newline_def)
  from c have keep: "snprintf 128 (snprintf 128 buf) = buf"
    by (simp add: snprintf_def complete_line_def)
  from c have inv: "cbt' = 0 \<or> (\<exists>l. Some buf = Some l \<and> l \<noteq> [] \<and> last l = NL)" for cbt' :: int
    by (simp add: complete_line_def)
  show ?case
  proof (cases "is_entry (butlast buf)")
    case False
    with tm cs have "wl_loop stale (Some p) (buf # rest) cbt lastb = wl_loop stale (Some p) rest cbt lastb"
      by (auto simp: is_entry_def Let_def)
    with False Cons.IH [OF r Cons.prems(2)] show ?thesis
      by simp
  next
    case True
    show ?thesis
    proof (cases "entry_matches (butlast buf) (Some p)")
      case m: True
      with tm cs True guard have "wl_loop stale (Some p) (buf # rest) cbt lastb = Exempt"
        by (auto simp: is_entry_def entry_matches_def Let_def split: if_splits)
      with True m show ?thesis
        by simp
    next
      case m: False
      with tm cs True guard keep
      have "wl_loop stale (Some p) (buf # rest) cbt lastb =
          wl_loop stale (Some p) rest (cbt + 1) (Some buf)"
        by (auto simp: is_entry_def entry_matches_def Let_def split: if_splits)
      with True m Cons.IH [OF r inv] show ?thesis
        by simp
    qed
  qed
qed

subsection \<open>Lists with a line longer than the buffer\<close>

declare wl_loop.simps [simp del]

lemma lines_read_Nil: "lines_read [] = []"
  by (simp add: lines_read.simps fgets_def)

lemma takeWhile_append_all: "\<forall>x \<in> set xs. P x \<Longrightarrow> takeWhile P (xs @ ys) = xs @ takeWhile P ys"
  by (induction xs) auto

lemma lines_read_long: "lines_read (long_line @ rest) = long_line # lines_read rest"
proof -
  have "takeWhile (\<lambda>c. c \<noteq> NL) (long_line @ rest) = long_line @ takeWhile (\<lambda>c. c \<noteq> NL) rest"
    by (rule takeWhile_append_all) (simp add: long_line_def)
  moreover have len: "length long_line = 127"
    by (simp add: long_line_def)
  moreover from len have "long_line \<noteq> []"
    by auto
  ultimately have "fgets 128 (long_line @ rest) = Some (long_line, rest)"
    by (simp add: fgets_def Let_def)
  then show ?thesis
    by (simp add: lines_read.simps)
qed

lemma long_line_unterminated: "\<not> terminated long_line"
  by (simp add: terminated_iff cstr_def long_line_def)

lemma lines_read_short:
  assumes "NL \<notin> set l" and "length l < 127"
  shows "lines_read (l @ NL # rest) = (l @ [NL]) # lines_read rest"
proof -
  have "takeWhile (\<lambda>c. c \<noteq> NL) (l @ NL # rest) = l @ takeWhile (\<lambda>c. c \<noteq> NL) (NL # rest)"
    by (rule takeWhile_append_all) (use assms in auto)
  then have "length (takeWhile (\<lambda>c. c \<noteq> NL) (l @ NL # rest)) = length l"
    by simp
  with assms have "fgets 128 (l @ NL # rest) = Some (l @ [NL], rest)"
    by (simp add: fgets_def Let_def)
  then show ?thesis
    by (simp add: lines_read.simps)
qed

lemma lines_read_fitting:
  "list_all (\<lambda>l. NL \<notin> set l \<and> length l < 127) ls \<Longrightarrow>
   lines_read (concat (map (\<lambda>l. l @ [NL]) ls)) = map (\<lambda>l. l @ [NL]) ls"
proof (induction ls)
  case Nil
  show ?case by (simp add: lines_read_Nil)
next
  case (Cons l ls)
  then have "NL \<notin> set l" and "length l < 127"
    by simp_all
  then have "lines_read (l @ NL # concat (map (\<lambda>l. l @ [NL]) ls)) =
      (l @ [NL]) # lines_read (concat (map (\<lambda>l. l @ [NL]) ls))"
    by (rule lines_read_short)
  with Cons show ?case
    by simp
qed

text \<open>On a list of which every line has at most 126 bytes, no NUL, and its newline, the
  matcher returns Exempt exactly when one of the lines is an entry that matches.\<close>

lemma fitting_list_classification:
  assumes "list_all (\<lambda>l. NL \<notin> set l \<and> NUL \<notin> set l \<and> length l < 127) ls"
  shows "check_wl_config stale (wl_fs (concat (map (\<lambda>l. l @ [NL]) ls))) (Some p) =
    (if list_ex (\<lambda>l. is_entry l \<and> entry_matches l (Some p)) ls then Exempt else Standard)"
proof -
  from assms have "list_all (\<lambda>l. NL \<notin> set l \<and> length l < 127) ls"
    by (simp add: list_all_iff)
  then have rd: "lines_read (concat (map (\<lambda>l. l @ [NL]) ls)) = map (\<lambda>l. l @ [NL]) ls"
    by (rule lines_read_fitting)
  from assms have "list_all complete_line (map (\<lambda>l. l @ [NL]) ls)"
    by (auto simp: list_all_iff complete_line_def)
  then have "wl_loop stale (Some p) (map (\<lambda>l. l @ [NL]) ls) 0 None =
    (if list_ex (\<lambda>buf. is_entry (butlast buf) \<and> entry_matches (butlast buf) (Some p))
          (map (\<lambda>l. l @ [NL]) ls)
     then Exempt else Standard)"
    by (rule complete_lines_exempt_iff) simp
  then show ?thesis
    by (simp add: check_wl_config_wl_fs rd list_ex_iff)
qed

lemmas wl_eval = wl_loop.simps cstr_def snprintf_def first_is_def last_not_newline_def

text \<open>
  Claim C3, evaluated on the code. The list holds the line \<open>foo\<close> and then a line of
  127 bytes \<open>x\<close> followed by \<open>sshd\<close>. \<open>fgets\<close> delivers the second line in two parts:
  127 bytes without a newline, and the remainder \<open>sshd\<close> with it. The first part is
  skipped; the remainder is compared as a Substring entry and makes the candidate
  \<open>sshd\<close> Exempt, whatever the uninitialised array holds, because line 177 has stored
  the line \<open>foo\<close>, newline included, in \<open>last\<close> before the test of line 155 reads it.
\<close>

theorem remainder_of_truncated_line_exempts:
  "lines_read (''foo'' @ NL # long_line @ ''sshd'' @ [NL]) =
     [''foo'' @ [NL], long_line, ''sshd'' @ [NL]] \<and>
   \<not> terminated long_line \<and>
   check_wl_config stale (wl_fs (''foo'' @ NL # long_line @ ''sshd'' @ [NL])) (Some ''sshd'') = Exempt"
proof -
  have a: "lines_read (''foo'' @ NL # R) = (''foo'' @ [NL]) # lines_read R" for R
    by (rule lines_read_short) simp_all
  have b: "lines_read (''sshd'' @ NL # R) = (''sshd'' @ [NL]) # lines_read R" for R
    by (rule lines_read_short) simp_all
  have rd: "lines_read (''foo'' @ NL # long_line @ ''sshd'' @ [NL]) =
      [''foo'' @ [NL], long_line, ''sshd'' @ [NL]]"
    by (simp only: a b lines_read_long lines_read_Nil)
  have w1: "wl_loop stale (Some ''sshd'') ((''foo'' @ [NL]) # R) 0 None =
      wl_loop stale (Some ''sshd'') R 1 (Some (''foo'' @ [NL]))" for R
    by (simp add: wl_eval)
  have w2: "wl_loop stale (Some ''sshd'') (long_line # R) 1 (Some (''foo'' @ [NL])) =
      wl_loop stale (Some ''sshd'') R (1 + 1) (Some (''foo'' @ [NL]))" for R
    by (rule wl_loop_skips_unterminated [OF long_line_unterminated])
  have w3: "wl_loop stale (Some ''sshd'') [''sshd'' @ [NL]] (1 + 1) (Some (''foo'' @ [NL])) = Exempt"
    by (simp add: wl_eval)
  have "wl_loop stale (Some ''sshd'') [''foo'' @ [NL], long_line, ''sshd'' @ [NL]] 0 None = Exempt"
    by (simp only: w1 w2 w3)
  with rd long_line_unterminated show ?thesis
    by (simp only: check_wl_config_wl_fs simp_thms)
qed

text \<open>
  Claim C6, evaluated on the code. In a list that holds only the line \<open>sshd\<close> the
  candidate \<open>sh\<close> is Exempt. In the list whose first line has 127 bytes and whose
  second line is \<open>sshd\<close>, \<open>fgets\<close> delivers the first line without its newline and
  then the newline alone; \<open>catch_bad_things\<close> is 1 and \<open>last\<close> was never written when
  the entry \<open>sshd\<close> is reached, so with a stack that does not end \<open>last\<close> in a newline
  the test of line 155 discards the entry and the candidate \<open>sh\<close> is Standard.
\<close>

theorem entry_after_long_line_is_lost:
  "check_wl_config stale (wl_fs (''sshd'' @ [NL])) (Some ''sh'') = Exempt \<and>
   lines_read (long_line @ NL # ''sshd'' @ [NL]) = [long_line, [NL], ''sshd'' @ [NL]] \<and>
   check_wl_config True (wl_fs (long_line @ NL # ''sshd'' @ [NL])) (Some ''sh'') = Standard"
proof -
  have a: "lines_read ([] @ NL # R) = ([] @ [NL]) # lines_read R" for R
    by (rule lines_read_short) simp_all
  have b: "lines_read (''sshd'' @ NL # R) = (''sshd'' @ [NL]) # lines_read R" for R
    by (rule lines_read_short) simp_all
  have rd1: "lines_read (''sshd'' @ [NL]) = [''sshd'' @ [NL]]"
    by (simp only: b lines_read_Nil)
  have rd2: "lines_read (long_line @ NL # ''sshd'' @ [NL]) = [long_line, [NL], ''sshd'' @ [NL]]"
    using a [of "''sshd'' @ [NL]"] by (simp only: lines_read_long b lines_read_Nil append_Nil)
  have plain_list: "wl_loop stale (Some ''sh'') [''sshd'' @ [NL]] 0 None = Exempt"
    by (simp add: wl_eval)
  have w1: "wl_loop True (Some ''sh'') (long_line # R) 0 None =
      wl_loop True (Some ''sh'') R (0 + 1) None" for R
    by (rule wl_loop_skips_unterminated [OF long_line_unterminated])
  have w2: "wl_loop True (Some ''sh'') [[NL], ''sshd'' @ [NL]] (0 + 1) None = Standard"
    by (simp add: wl_eval)
  have "wl_loop True (Some ''sh'') [long_line, [NL], ''sshd'' @ [NL]] 0 None = Standard"
    by (simp only: w1 w2)
  with rd1 rd2 plain_list show ?thesis
    by (simp only: check_wl_config_wl_fs simp_thms)
qed

text \<open>
  Claim C8, evaluated on the code. In the list whose first line has 127 bytes and whose
  second line is \<open>!sshd\<close>, the Exact entry \<open>sshd\<close> equals the candidate \<open>sshd\<close>, yet
  the matcher returns Standard when the stack does not end \<open>last\<close> in a newline: the
  test of line 155 discards the entry before it is compared. In the list of the lines
  \<open>zsh\<close> and 127 bytes followed by \<open>bash\<close>, the matcher returns Exempt for the
  candidate \<open>bash\<close> on the remainder of the over-long line, which is no entry.
\<close>

theorem matching_entry_gives_Standard:
  "entry_matches ''!sshd'' (Some ''sshd'') \<and>
   lines_read (long_line @ NL # ''!sshd'' @ [NL]) = [long_line, [NL], ''!sshd'' @ [NL]] \<and>
   check_wl_config True (wl_fs (long_line @ NL # ''!sshd'' @ [NL])) (Some ''sshd'') = Standard \<and>
   lines_read (''zsh'' @ NL # long_line @ ''bash'' @ [NL]) =
     [''zsh'' @ [NL], long_line, ''bash'' @ [NL]] \<and>
   check_wl_config stale (wl_fs (''zsh'' @ NL # long_line @ ''bash'' @ [NL])) (Some ''bash'') = Exempt"
proof -
  have a: "lines_read ([] @ NL # R) = ([] @ [NL]) # lines_read R" for R
    by (rule lines_read_short) simp_all
  have b: "lines_read (''!sshd'' @ NL # R) = (''!sshd'' @ [NL]) # lines_read R" for R
    by (rule lines_read_short) simp_all
  have c: "lines_read (''zsh'' @ NL # R) = (''zsh'' @ [NL]) # lines_read R" for R
    by (rule lines_read_short) simp_all
  have d: "lines_read (''bash'' @ NL # R) = (''bash'' @ [NL]) # lines_read R" for R
    by (rule lines_read_short) simp_all
  have rd1: "lines_read (long_line @ NL # ''!sshd'' @ [NL]) = [long_line, [NL], ''!sshd'' @ [NL]]"
    using a [of "''!sshd'' @ [NL]"] by (simp only: lines_read_long b lines_read_Nil append_Nil)
  have rd2: "lines_read (''zsh'' @ NL # long_line @ ''bash'' @ [NL]) =
      [''zsh'' @ [NL], long_line, ''bash'' @ [NL]]"
    by (simp only: c d lines_read_long lines_read_Nil)
  have m: "entry_matches ''!sshd'' (Some ''sshd'')"
    by (simp add: entry_matches_def first_is_def)
  have w1: "wl_loop True (Some ''sshd'') (long_line # R) 0 None =
      wl_loop True (Some ''sshd'') R (0 + 1) None" for R
    by (rule wl_loop_skips_unterminated [OF long_line_unterminated])
  have w2: "wl_loop True (Some ''sshd'') [[NL], ''!sshd'' @ [NL]] (0 + 1) None = Standard"
    by (simp add: wl_eval)
  have lost: "wl_loop True (Some ''sshd'') [long_line, [NL], ''!sshd'' @ [NL]] 0 None = Standard"
    by (simp only: w1 w2)
  have v1: "wl_loop stale (Some ''bash'') ((''zsh'' @ [NL]) # R) 0 None =
      wl_loop stale (Some ''bash'') R 1 (Some (''zsh'' @ [NL]))" for R
    by (simp add: wl_eval)
  have v2: "wl_loop stale (Some ''bash'') (long_line # R) 1 (Some (''zsh'' @ [NL])) =
      wl_loop stale (Some ''bash'') R (1 + 1) (Some (''zsh'' @ [NL]))" for R
    by (rule wl_loop_skips_unterminated [OF long_line_unterminated])
  have v3: "wl_loop stale (Some ''bash'') [''bash'' @ [NL]] (1 + 1) (Some (''zsh'' @ [NL])) = Exempt"
    by (simp add: wl_eval)
  have gained: "wl_loop stale (Some ''bash'') [''zsh'' @ [NL], long_line, ''bash'' @ [NL]] 0 None = Exempt"
    by (simp only: v1 v2 v3)
  from m rd1 rd2 lost gained show ?thesis
    by (simp only: check_wl_config_wl_fs simp_thms)
qed

section \<open>Properties of fork\<close>

declare token_loop.simps [simp del] arg_loop.simps [simp del] dec_nat.simps [simp del]

subsection \<open>Every path writes to fileName and returns pid\<close>

lemma sound_write_score: "sound fileName pid (write_score fileName oomFile v tr (Ret pid))"
  by (simp add: sound_def write_score_def split: option.splits)

lemma sound_write_score_Undefined: "sound fileName pid (write_score fileName oomFile v tr Undefined)"
  by (simp add: sound_def write_score_def split: option.splits)

lemma sound_Undefined: "sound fileName pid \<lparr>checked = tr, written = None, returned = Undefined\<rparr>"
  by (simp add: sound_def)

lemma token_loop_sound:
  "token_loop garbage fs fileName oomFile pid saved tr = Stop e \<Longrightarrow> sound fileName pid e"
proof (induction garbage fs fileName oomFile pid saved tr rule: token_loop.induct)
  case (1 garbage fs fileName oomFile pid saved tr)
  note stop = "1.prems"
  show ?case
  proof (cases "strtok saved")
    case None
    with stop show ?thesis
      by (subst (asm) token_loop.simps)
         (auto split: result.splits if_splits simp: sound_write_score sound_Undefined)
  next
    case (Some x2)
    obtain token saved' where x2: "(token, saved') = x2"
      by (cases x2) auto
    show ?thesis
    proof (cases "check_wl_config (garbage (length tr)) fs (Some token)")
      case Undefined
      with Some x2 stop show ?thesis
        by (subst (asm) token_loop.simps) (auto simp: sound_Undefined)
    next
      case (Ret r)
      show ?thesis
      proof (cases "r = 1")
        case True
        with Ret Some x2 stop show ?thesis
          by (subst (asm) token_loop.simps) (auto simp: sound_write_score_Undefined)
      next
        case False
        with Ret Some x2 stop
        have "token_loop garbage fs fileName oomFile pid saved' (tr @ [Some token]) = Stop e"
          by (subst (asm) token_loop.simps) auto
        with "1.IH" [OF Some x2 Ret False] show ?thesis .
      qed
    qed
  qed
qed

lemma arg_loop_sound: "sound fileName pid (arg_loop garbage fs fileName oomFile pid cmdFile tr)"
proof (induction garbage fs fileName oomFile pid cmdFile tr rule: arg_loop.induct)
  case (1 garbage fs fileName oomFile pid cmdFile tr)
  show ?case
  proof (cases "getdelim cmdFile")
    case None
    then have "arg_loop garbage fs fileName oomFile pid cmdFile tr =
        write_score fileName oomFile 1000 tr (Ret pid)"
      by (subst arg_loop.simps) simp
    then show ?thesis
      by (simp add: sound_write_score)
  next
    case (Some x2)
    obtain cmdArg rest where x2: "(cmdArg, rest) = x2"
      by (cases x2) auto
    show ?thesis
    proof (cases "first_is (CHR ''/'') cmdArg")
      case True
      show ?thesis
      proof (cases "strtok (after_last_slash cmdArg)")
        case None
        with Some x2 True
        have "arg_loop garbage fs fileName oomFile pid cmdFile tr =
            arg_loop garbage fs fileName oomFile pid rest tr"
          by (subst arg_loop.simps) auto
        with "1.IH"(1) [OF Some x2 True None] show ?thesis
          by simp
      next
        case inner: (Some x2a)
        obtain token saved where x2a: "(token, saved) = x2a"
          by (cases x2a) auto
        show ?thesis
        proof (cases "token_loop garbage fs fileName oomFile pid saved tr")
          case (Continue tr')
          with Some x2 True inner x2a
          have "arg_loop garbage fs fileName oomFile pid cmdFile tr =
              arg_loop garbage fs fileName oomFile pid rest tr'"
            by (subst arg_loop.simps) auto
          with "1.IH"(2) [OF Some x2 True inner x2a Continue] show ?thesis
            by simp
        next
          case (Stop e)
          with Some x2 True inner x2a
          have "arg_loop garbage fs fileName oomFile pid cmdFile tr = e"
            by (subst arg_loop.simps) auto
          with token_loop_sound [OF Stop] show ?thesis
            by simp
        qed
      qed
    next
      case False
      show ?thesis
      proof (cases "check_wl_config (garbage (length tr)) fs (Some cmdArg)")
        case Undefined
        with Some x2 False
        have "arg_loop garbage fs fileName oomFile pid cmdFile tr =
            \<lparr>checked = tr @ [Some cmdArg], written = None, returned = Undefined\<rparr>"
          by (subst arg_loop.simps) auto
        then show ?thesis
          by (simp add: sound_Undefined)
      next
        case (Ret r)
        show ?thesis
        proof (cases "r = 1")
          case True
          with Some x2 False Ret
          have "arg_loop garbage fs fileName oomFile pid cmdFile tr =
              write_score fileName oomFile (- 1000) (tr @ [Some cmdArg]) (Ret pid)"
            by (subst arg_loop.simps) auto
          then show ?thesis
            by (simp add: sound_write_score)
        next
          case neq: False
          with Some x2 False Ret
          have "arg_loop garbage fs fileName oomFile pid cmdFile tr =
              arg_loop garbage fs fileName oomFile pid rest (tr @ [Some cmdArg])"
            by (subst arg_loop.simps) auto
          with "1.IH"(3) [OF Some x2 False Ret neq] show ?thesis
            by simp
        qed
      qed
    qed
  qed
qed

lemma fork_sound: "sound (fileName_of pid) pid (fork garbage fs pid)"
  by (simp add: fork_def Let_def arg_loop_sound split: option.splits) (simp add: sound_def)

lemma fork_path:
  "written (fork garbage fs pid) = Some (path, v) \<Longrightarrow> path = fileName_of pid"
  using fork_sound [of pid garbage fs] by (simp add: sound_def)

lemma fork_returns_pid:
  "returned (fork garbage fs pid) = Ret r \<Longrightarrow> r = pid"
  using fork_sound [of pid garbage fs] by (simp add: sound_def)

lemma fork_child:
  "fork garbage fs 0 = \<lparr>checked = [], written = None, returned = Ret 0\<rparr>"
  by (simp add: fork_def)

subsection \<open>The length of the printed paths\<close>

lemma dec_nat_nonempty: "0 < length (dec_nat n)"
  by (subst dec_nat.simps) simp

lemma dec_nat_long: "10 ^ k \<le> n \<Longrightarrow> k < length (dec_nat n)"
proof (induction k arbitrary: n)
  case 0
  show ?case by (rule dec_nat_nonempty)
next
  case (Suc k)
  from Suc.prems have ten: "10 * 10 ^ k \<le> n" by simp
  have "1 \<le> (10::nat) ^ k" by simp
  then have "(10::nat) \<le> 10 * 10 ^ k" by simp
  with ten have big: "\<not> n < 10" by linarith
  have "10 * x \<le> n \<Longrightarrow> x \<le> n div 10" for x by arith
  from this [OF ten] have "k < length (dec_nat (n div 10))"
    by (rule Suc.IH)
  with big show ?case
    by (subst dec_nat.simps) simp
qed

lemma dec_nat_short: "n < 10 ^ Suc k \<Longrightarrow> length (dec_nat n) \<le> Suc k"
proof (induction k arbitrary: n)
  case 0
  then show ?case by (subst dec_nat.simps) simp
next
  case (Suc k)
  from Suc.prems have "n div 10 < 10 ^ Suc k"
    by (simp add: less_mult_imp_div_less)
  then have "length (dec_nat (n div 10)) \<le> Suc k"
    using Suc.IH by blast
  then show ?case
    by (subst dec_nat.simps) simp
qed

lemma take_shorter: "n < length xs \<Longrightarrow> take n xs \<noteq> xs"
proof
  assume "n < length xs" and "take n xs = xs"
  then have "length (take n xs) = length xs" by simp
  with \<open>n < length xs\<close> show False by simp
qed

lemma paths_truncated:
  assumes "99999 < pid"
  shows "fileName_of pid \<noteq> oom_path pid \<and> cmdFileName_of pid \<noteq> cmdline_path pid \<and>
         length (fileName_of pid) = 25 \<and> length (cmdFileName_of pid) = 19"
proof -
  have "10 ^ 5 \<le> nat pid"
    using assms by simp
  then have "5 < length (dec_nat (nat pid))"
    by (rule dec_nat_long)
  then have len: "5 < length (dec pid)"
    using assms by (simp add: dec_def)
  have "fileName_of pid \<noteq> oom_path pid"
    unfolding fileName_of_def snprintf_def
    by (rule take_shorter) (use len in \<open>simp add: oom_path_def\<close>)
  moreover have "cmdFileName_of pid \<noteq> cmdline_path pid"
    unfolding cmdFileName_of_def snprintf_def
    by (rule take_shorter) (use len in \<open>simp add: cmdline_path_def\<close>)
  moreover have "length (fileName_of pid) = 25" "length (cmdFileName_of pid) = 19"
    using len by (simp_all add: fileName_of_def cmdFileName_of_def snprintf_def oom_path_def cmdline_path_def)
  ultimately show ?thesis by simp
qed

lemma paths_exact:
  assumes "0 \<le> pid" and "pid \<le> 99999"
  shows "fileName_of pid = oom_path pid \<and> cmdFileName_of pid = cmdline_path pid"
proof -
  have "nat pid < 10 ^ Suc 4"
    using assms by simp
  then have "length (dec_nat (nat pid)) \<le> Suc 4"
    by (rule dec_nat_short)
  then have len: "length (dec pid) \<le> 5"
    using assms by (simp add: dec_def)
  show ?thesis
    using len by (simp add: fileName_of_def cmdFileName_of_def snprintf_def oom_path_def cmdline_path_def)
qed

subsection \<open>fork on the example file systems\<close>

lemma check_wl_config_proc_fs:
  "check_wl_config stale (proc_fs pid cmdline wl) proc_name =
     (case wl of
        None \<Rightarrow> Standard
      | Some f \<Rightarrow> if openable f then wl_loop stale proc_name (lines_read (bytes f)) 0 None
                  else Standard)"
  by (simp add: check_wl_config_def proc_fs_def logs_fs_def access_def fopen_def oom_path_def
      cmdline_path_def on_stream_def plain_def Let_def split: option.splits)

lemma fork_proc_fs:
  assumes "0 < pid" and "pid \<le> 99999"
  shows "fork garbage (proc_fs pid cmdline wl) pid =
         arg_loop garbage (proc_fs pid cmdline wl) (oom_path pid) (Some (plain [])) pid cmdline []"
proof -
  from assms have p: "fileName_of pid = oom_path pid" "cmdFileName_of pid = cmdline_path pid"
    using paths_exact [of pid] by simp_all
  have oom: "proc_fs pid cmdline wl (oom_path pid) = Some (plain [])"
    by (simp add: proc_fs_def)
  have cmd: "proc_fs pid cmdline wl (cmdline_path pid) = Some (plain cmdline)"
    by (simp add: proc_fs_def oom_path_def cmdline_path_def)
  have log: "proc_fs pid cmdline wl forks_log = Some (plain [])"
    by (simp add: proc_fs_def logs_fs_def oom_path_def cmdline_path_def)
  from assms show ?thesis
    by (simp add: fork_def Let_def p access_def fopen_def oom cmd log) (simp add: plain_def)
qed

lemmas fork_eval = arg_loop.simps token_loop.simps getdelim_def first_is_def after_last_slash_def
  strtok_def write_score_def check_wl_config_proc_fs plain_def lines_read.simps fgets_def cstr_def
  snprintf_def last_not_newline_def wl_loop.simps

lemmas path_eval = oom_path_def cmdline_path_def fileName_of_def cmdFileName_of_def snprintf_def
  dec_def dec_nat.simps digit_char_def

subsection \<open>The claims about fork\<close>

text \<open>
  Claim C10. The buffers \<open>fileName\<close> (26 bytes) and \<open>cmdFileName\<close> (20 bytes) hold the
  paths of identifiers of at most five digits. For every identifier above 99999
  \<open>snprintf\<close> cuts both paths to the 25 and 19 bytes the buffers hold, so that neither
  is the path of that process, and no score is written to the control file of that
  process; for an identifier from 1 to 99999 both paths are complete. Whatever the
  identifier, a score is only ever written to the path in \<open>fileName\<close>.
\<close>

theorem path_buffers_hold_five_digits:
  "(99999 < pid \<longrightarrow>
      fileName_of pid \<noteq> oom_path pid \<and> cmdFileName_of pid \<noteq> cmdline_path pid \<and>
      length (fileName_of pid) = 25 \<and> length (cmdFileName_of pid) = 19 \<and>
      written (fork garbage fs pid) \<noteq> Some (oom_path pid, v)) \<and>
   (0 < pid \<and> pid \<le> 99999 \<longrightarrow>
      fileName_of pid = oom_path pid \<and> cmdFileName_of pid = cmdline_path pid) \<and>
   (written (fork garbage fs pid) = Some (path, v) \<longrightarrow> path = fileName_of pid)"
proof (intro conjI impI)
  assume big: "99999 < pid"
  from paths_truncated [OF big]
  show "fileName_of pid \<noteq> oom_path pid" and "cmdFileName_of pid \<noteq> cmdline_path pid"
    and "length (fileName_of pid) = 25" and "length (cmdFileName_of pid) = 19"
    by simp_all
  show "written (fork garbage fs pid) \<noteq> Some (oom_path pid, v)"
  proof
    assume "written (fork garbage fs pid) = Some (oom_path pid, v)"
    then have "oom_path pid = fileName_of pid"
      by (rule fork_path)
    with paths_truncated [OF big] show False
      by simp
  qed
next
  assume small: "0 < pid \<and> pid \<le> 99999"
  then have "0 \<le> pid" and "pid \<le> 99999"
    by simp_all
  from paths_exact [OF this]
  show "fileName_of pid = oom_path pid" and "cmdFileName_of pid = cmdline_path pid"
    by simp_all
next
  assume "written (fork garbage fs pid) = Some (path, v)"
  then show "path = fileName_of pid"
    by (rule fork_path)
qed

theorem path_buffers_hold_five_digits_witness:
  "fileName_of 123456 = ''/proc/123456/oom_score_ad'' \<and>
   fileName_of 123456 \<noteq> oom_path 123456 \<and>
   cmdFileName_of 123456 = ''/proc/123456/cmdlin'' \<and>
   cmdFileName_of 123456 \<noteq> cmdline_path 123456 \<and>
   written (fork (\<lambda>k. True) (proc_fs 123456 (''sshd'' @ [NUL]) None) 123456)
     \<noteq> Some (oom_path 123456, 1000) \<and>
   fileName_of 4242 = oom_path 4242 \<and> cmdFileName_of 4242 = cmdline_path 4242 \<and>
   written (fork (\<lambda>k. True) (proc_fs 4242 (''sshd'' @ [NUL]) None) 4242)
     = Some (''/proc/4242/oom_score_adj'', 1000) \<and>
   ''/proc/4242/oom_score_adj'' = fileName_of 4242"
proof -
  have big: "(99999::int) < 123456" and small: "(0::int) < 4242 \<and> (4242::int) \<le> 99999"
    by simp_all
  have wr: "written (fork (\<lambda>k. True) (proc_fs 4242 (''sshd'' @ [NUL]) None) 4242)
      = Some (''/proc/4242/oom_score_adj'', 1000)"
    by (simp add: fork_proc_fs fork_eval) (simp add: path_eval)
  have cut: "fileName_of 123456 = ''/proc/123456/oom_score_ad''"
      "cmdFileName_of 123456 = ''/proc/123456/cmdlin''"
    by (simp_all add: path_eval)
  note thm1 = path_buffers_hold_five_digits
      [of 123456 "\<lambda>k. True" "proc_fs 123456 (''sshd'' @ [NUL]) None" 1000 "[]"]
  note thm2 = path_buffers_hold_five_digits
      [of 4242 "\<lambda>k. True" "proc_fs 4242 (''sshd'' @ [NUL]) None" 1000 "''/proc/4242/oom_score_adj''"]
  from thm1 big have first:
    "fileName_of 123456 \<noteq> oom_path 123456 \<and> cmdFileName_of 123456 \<noteq> cmdline_path 123456 \<and>
     written (fork (\<lambda>k. True) (proc_fs 123456 (''sshd'' @ [NUL]) None) 123456)
       \<noteq> Some (oom_path 123456, 1000)"
    by blast
  from thm2 small wr have second:
    "fileName_of 4242 = oom_path 4242 \<and> cmdFileName_of 4242 = cmdline_path 4242 \<and>
     ''/proc/4242/oom_score_adj'' = fileName_of 4242"
    by blast
  from first second wr cut show ?thesis
    by simp
qed

text \<open>
  Claim C2, as stated, fails where the read of the argument vector yields no token: the
  two existence probes succeed, \<open>getdelim\<close> returns -1 at once, and lines 110 to 113
  write the score 1000 for the identifier.
\<close>

theorem empty_cmdline_is_scored:
  "access (proc_fs 4242 [] None) (fileName_of 4242) \<and>
   access (proc_fs 4242 [] None) (cmdFileName_of 4242) \<and>
   fopen (proc_fs 4242 [] None) (cmdFileName_of 4242) = Some (plain []) \<and>
   getdelim (bytes (plain [])) = None \<and>
   fork (\<lambda>k. True) (proc_fs 4242 [] None) 4242 =
     \<lparr>checked = [], written = Some (''/proc/4242/oom_score_adj'', 1000), returned = Ret 4242\<rparr>"
proof -
  have p: "fileName_of 4242 = oom_path 4242" "cmdFileName_of 4242 = cmdline_path 4242"
    using paths_exact [of 4242] by simp_all
  have "fork (\<lambda>k. True) (proc_fs 4242 [] None) 4242 =
     \<lparr>checked = [], written = Some (''/proc/4242/oom_score_adj'', 1000), returned = Ret 4242\<rparr>"
    by (simp add: fork_proc_fs fork_eval) (simp add: path_eval)
  then show ?thesis
    by (simp add: p access_def fopen_def proc_fs_def getdelim_def)
       (simp add: plain_def oom_path_def cmdline_path_def)
qed

text \<open>
  Claim C2, amended. Where the log file of the interceptor opens: for every identifier
  whose score-control file is absent when it is probed (line 65), and for every
  identifier whose argument-vector file is absent when it is probed (line 69), no
  candidate is checked, no score is written and the interceptor returns the identifier.
  When both files exist and are opened and the read of the argument vector yields no
  token, the interceptor writes the score 1000 and returns the identifier.
\<close>

theorem vanished_process_gets_no_score:
  "(fopen fs forks_log = Some logFile \<and>
    (\<not> access fs (fileName_of pid) \<or> \<not> access fs (cmdFileName_of pid)) \<longrightarrow>
      fork garbage fs pid = \<lparr>checked = [], written = None, returned = Ret pid\<rparr>) \<and>
   (fopen fs forks_log = Some logFile \<and>
    pid \<noteq> 0 \<and> access fs (fileName_of pid) \<and> fopen fs (fileName_of pid) = Some oomFile \<and>
    access fs (cmdFileName_of pid) \<and> fopen fs (cmdFileName_of pid) = Some cmdFile \<and>
    bytes cmdFile = [] \<longrightarrow>
      fork garbage fs pid =
        \<lparr>checked = [], written = Some (fileName_of pid, 1000), returned = Ret pid\<rparr>)"
proof (intro conjI impI)
  assume "fopen fs forks_log = Some logFile \<and>
    (\<not> access fs (fileName_of pid) \<or> \<not> access fs (cmdFileName_of pid))"
  then show "fork garbage fs pid = \<lparr>checked = [], written = None, returned = Ret pid\<rparr>"
    by (auto simp: fork_def Let_def)
next
  assume a: "fopen fs forks_log = Some logFile \<and>
    pid \<noteq> 0 \<and> access fs (fileName_of pid) \<and> fopen fs (fileName_of pid) = Some oomFile \<and>
    access fs (cmdFileName_of pid) \<and> fopen fs (cmdFileName_of pid) = Some cmdFile \<and>
    bytes cmdFile = []"
  have "arg_loop garbage fs (fileName_of pid) (Some oomFile) pid [] [] =
      \<lparr>checked = [], written = Some (fileName_of pid, 1000), returned = Ret pid\<rparr>"
    by (subst arg_loop.simps) (simp add: getdelim_def write_score_def)
  with a show "fork garbage fs pid =
      \<lparr>checked = [], written = Some (fileName_of pid, 1000), returned = Ret pid\<rparr>"
    by (simp add: fork_def Let_def)
qed

theorem vanished_process_gets_no_score_witness:
  "fork (\<lambda>k. True) logs_fs 4242 = \<lparr>checked = [], written = None, returned = Ret 4242\<rparr> \<and>
   fork (\<lambda>k. True) (\<lambda>path. if path = oom_path 4242 then Some (plain []) else logs_fs path) 4242 =
     \<lparr>checked = [], written = None, returned = Ret 4242\<rparr> \<and>
   fork (\<lambda>k. True) (proc_fs 4242 [] None) 4242 =
     \<lparr>checked = [], written = Some (fileName_of 4242, 1000), returned = Ret 4242\<rparr>"
proof -
  let ?gone = "logs_fs"
  let ?half = "\<lambda>path. if path = oom_path 4242 then Some (plain []) else logs_fs path"
  let ?full = "proc_fs 4242 [] None"
  have p: "fileName_of 4242 = oom_path 4242" "cmdFileName_of 4242 = cmdline_path 4242"
    using paths_exact [of 4242] by simp_all
  have ne: "cmdline_path 4242 \<noteq> oom_path 4242"
    by (simp add: oom_path_def cmdline_path_def)
  have log: "fopen ?gone forks_log = Some (plain [])" "fopen ?half forks_log = Some (plain [])"
      "fopen ?full forks_log = Some (plain [])"
    by (simp_all add: fopen_def proc_fs_def logs_fs_def plain_def oom_path_def cmdline_path_def)
  have gone: "\<not> access ?gone (fileName_of 4242) \<or> \<not> access ?gone (cmdFileName_of 4242)"
    by (simp add: access_def p logs_fs_def oom_path_def)
  have half: "\<not> access ?half (fileName_of 4242) \<or> \<not> access ?half (cmdFileName_of 4242)"
    using ne by (simp add: access_def p logs_fs_def) (simp add: cmdline_path_def)
  have full: "(4242::int) \<noteq> 0 \<and> access ?full (fileName_of 4242) \<and>
      fopen ?full (fileName_of 4242) = Some (plain []) \<and>
      access ?full (cmdFileName_of 4242) \<and> fopen ?full (cmdFileName_of 4242) = Some (plain []) \<and>
      bytes (plain []) = []"
    using ne by (simp add: access_def fopen_def proc_fs_def p) (simp add: plain_def)
  from vanished_process_gets_no_score [of ?gone "plain []" 4242 "\<lambda>k. True" "plain []" "plain []"]
    gone log(1)
  have one: "fork (\<lambda>k. True) ?gone 4242 = \<lparr>checked = [], written = None, returned = Ret 4242\<rparr>"
    by blast
  from vanished_process_gets_no_score [of ?half "plain []" 4242 "\<lambda>k. True" "plain []" "plain []"]
    half log(2)
  have two: "fork (\<lambda>k. True) ?half 4242 = \<lparr>checked = [], written = None, returned = Ret 4242\<rparr>"
    by blast
  from vanished_process_gets_no_score [of ?full "plain []" 4242 "\<lambda>k. True" "plain []" "plain []"]
    full log(3)
  have three: "fork (\<lambda>k. True) ?full 4242 =
      \<lparr>checked = [], written = Some (fileName_of 4242, 1000), returned = Ret 4242\<rparr>"
    by blast
  from one two three show ?thesis
    by blast
qed

lemma fork_without_log:
  "pid \<noteq> 0 \<Longrightarrow> fopen fs forks_log = None \<Longrightarrow>
   fork garbage fs pid = \<lparr>checked = [], written = None, returned = Undefined\<rparr>"
  by (simp add: fork_def)

text \<open>
  Claim C9, evaluated on the code. The new process 1234 has the argument vector
  \<open>/bin/sh\<close> and the exemption list holds the line \<open>bash\<close>. The inner loop takes the
  token behind \<open>sh\<close>, which is \<open>NULL\<close>, and passes it to \<open>check_wl_config\<close>, where line
  171 hands it to \<open>strstr\<close>: the interceptor does not return the identifier, whatever
  the uninitialised arrays hold. In the child, where the primitive returned 0, it
  returns 0 and checks nothing.
\<close>

theorem null_token_reaches_matcher:
  "fork garbage fs 0 = \<lparr>checked = [], written = None, returned = Ret 0\<rparr> \<and>
   check_wl_config stale (proc_fs 1234 (''/bin/sh'' @ [NUL]) (Some (plain (''bash'' @ [NL])))) None
     = Undefined \<and>
   fork garbage (proc_fs 1234 (''/bin/sh'' @ [NUL]) (Some (plain (''bash'' @ [NL])))) 1234 =
     \<lparr>checked = [None], written = None, returned = Undefined\<rparr>"
proof -
  have "fork garbage (proc_fs 1234 (''/bin/sh'' @ [NUL]) (Some (plain (''bash'' @ [NL])))) 1234 =
     \<lparr>checked = [None], written = None, returned = Undefined\<rparr>"
    by (simp add: fork_proc_fs fork_eval)
  moreover have "check_wl_config stale
      (proc_fs 1234 (''/bin/sh'' @ [NUL]) (Some (plain (''bash'' @ [NL])))) None = Undefined"
    by (simp add: fork_eval)
  ultimately show ?thesis
    by (simp add: fork_child)
qed

text \<open>
  Claim C1, evaluated on the code. The argument vector is \<open>/usr/sbin/sshd\<close>, \<open>-D\<close>.
  Without an exemption list the candidates passed to the matcher are \<open>NULL\<close> and
  \<open>-D\<close>: the basename \<open>sshd\<close> is not among them, because line 89 takes the next token
  before line 90 checks one. With the list of the one line \<open>!sshd\<close> the process is not
  made exempt: the matcher is called with \<open>NULL\<close> and the run ends in line 163. The
  same process started as \<open>sshd\<close>, without a path, is checked by its name and gets the
  score -1000.
\<close>

theorem basename_is_never_checked:
  "after_last_slash ''/usr/sbin/sshd'' = ''sshd'' \<and>
   checked (fork garbage (proc_fs 4242 (''/usr/sbin/sshd'' @ [NUL] @ ''-D'' @ [NUL]) None) 4242)
     = [None, Some ''-D''] \<and>
   fork garbage (proc_fs 4242 (''/usr/sbin/sshd'' @ [NUL] @ ''-D'' @ [NUL])
       (Some (plain (''!sshd'' @ [NL])))) 4242
     = \<lparr>checked = [None], written = None, returned = Undefined\<rparr> \<and>
   fork garbage (proc_fs 4242 (''sshd'' @ [NUL] @ ''-D'' @ [NUL])
       (Some (plain (''!sshd'' @ [NL])))) 4242
     = \<lparr>checked = [Some ''sshd''], written = Some (oom_path 4242, - 1000), returned = Ret 4242\<rparr>"
proof -
  have "after_last_slash ''/usr/sbin/sshd'' = ''sshd''"
    by (simp add: after_last_slash_def)
  moreover have "checked (fork garbage
      (proc_fs 4242 (''/usr/sbin/sshd'' @ [NUL] @ ''-D'' @ [NUL]) None) 4242) = [None, Some ''-D'']"
    by (simp add: fork_proc_fs fork_eval)
  moreover have "fork garbage (proc_fs 4242 (''/usr/sbin/sshd'' @ [NUL] @ ''-D'' @ [NUL])
       (Some (plain (''!sshd'' @ [NL])))) 4242
     = \<lparr>checked = [None], written = None, returned = Undefined\<rparr>"
    by (simp add: fork_proc_fs fork_eval)
  moreover have "fork garbage (proc_fs 4242 (''sshd'' @ [NUL] @ ''-D'' @ [NUL])
       (Some (plain (''!sshd'' @ [NL])))) 4242
     = \<lparr>checked = [Some ''sshd''], written = Some (oom_path 4242, - 1000), returned = Ret 4242\<rparr>"
    by (simp add: fork_proc_fs fork_eval)
  ultimately show ?thesis
    by simp
qed

end
